theory Spec2Isabelle
  imports Main "HOL-Library.Sublist" "HOL-Library.Code_Target_Nat"
begin

section \<open>Python values\<close>

text \<open>
  A Python \<open>str\<close> is a sequence of Unicode code points, so a string is a list of
  natural numbers. \<open>lit\<close> turns an ASCII literal of the source into its code points;
  code points outside ASCII are written as numbers.
\<close>

type_synonym str = "nat list"

definition lit :: "string \<Rightarrow> str" where
  "lit s = map of_char s"

text \<open>\<open>sub in s\<close> on strings: \<open>sub\<close> occurs in \<open>s\<close> as a contiguous block.\<close>

definition str_in :: "str \<Rightarrow> str \<Rightarrow> bool" where
  "str_in sub s = sublist sub s"

text \<open>
  \<open>str.lower()\<close> and the class \<open>\d\<close> of \<open>re\<close> read the Unicode database of the
  interpreter, which is not part of the program. The model takes both as parameters:
  \<open>lower\<close> is \<open>str.lower\<close> itself, \<open>decimal\<close> says which code points are decimal
  digits. \<open>ascii_unicode\<close> is the instance that knows ASCII only; it is what both
  tables are on ASCII text.
\<close>

record unicode =
  lower :: "str \<Rightarrow> str"
  decimal :: "nat \<Rightarrow> bool"

definition ascii_lower :: "nat \<Rightarrow> nat" where
  "ascii_lower c = (if 65 \<le> c \<and> c \<le> 90 then c + 32 else c)"

definition ascii_unicode :: unicode where
  "ascii_unicode = \<lparr>lower = map ascii_lower, decimal = (\<lambda>c. 48 \<le> c \<and> c \<le> 57)\<rparr>"

text \<open>
  The exceptions the modelled code meets: \<open>IndexError\<close> and \<open>AttributeError\<close> are
  raised by the program's own statements, \<open>ClientError\<close> stands for whatever the model
  client raises, \<open>BadRequest\<close> for what reading \<open>request.json\<close> raises.
\<close>

datatype error = IndexError | AttributeError | ClientError | BadRequest

text \<open>
  The values a parsed JSON body is made of; these are the objects that reach the
  program from a request. A number keeps its text, which the program never reads. An
  object is the list of its items, with distinct keys.
\<close>

datatype json =
    JNull
  | JBool bool
  | JNumber string
  | JString str
  | JArray "json list"
  | JObject "(str \<times> json) list"

section \<open>ConversationContext\<close>

text \<open>An entry of \<open>history\<close>: the dictionary \<open>{'user_query': ..., 'ai_response': ...}\<close>
  of the two objects \<open>add_interaction\<close> was called with.\<close>

record interaction =
  user_query :: json
  ai_response :: json

record conversation_context =
  history :: "interaction list"
  max_history :: int
  current_topic :: "str option"
  difficulty_level :: str

text \<open>\<open>ConversationContext.__init__(max_history=5)\<close>\<close>

definition init :: "int \<Rightarrow> conversation_context" where
  "init n = \<lparr>history = [], max_history = n, current_topic = None,
              difficulty_level = lit ''intermediate''\<rparr>"

text \<open>
  \<open>add_interaction\<close>: \<open>self.history.pop(0)\<close> raises \<open>IndexError\<close> on an empty list,
  which the test \<open>len(self.history) >= self.max_history\<close> lets through when
  \<open>max_history\<close> is not positive.
\<close>

definition add_interaction ::
  "conversation_context \<Rightarrow> json \<Rightarrow> json \<Rightarrow> error + conversation_context" where
  "add_interaction self q r =
     (let new = \<lparr>user_query = q, ai_response = r\<rparr> in
      if int (length (history self)) \<ge> max_history self then
        (case history self of
           [] \<Rightarrow> Inl IndexError
         | oldest # rest \<Rightarrow> Inr (self\<lparr>history := rest @ [new]\<rparr>))
      else Inr (self\<lparr>history := history self @ [new]\<rparr>))"

text \<open>A sequence of calls, one after the other; an exception ends it.\<close>

fun add_interactions ::
  "conversation_context \<Rightarrow> (json \<times> json) list \<Rightarrow> error + conversation_context" where
  "add_interactions self [] = Inr self"
| "add_interactions self ((q, r) # calls) =
     (case add_interaction self q r of
        Inl e \<Rightarrow> Inl e
      | Inr self' \<Rightarrow> add_interactions self' calls)"

text \<open>The dictionary \<open>topics\<close> of \<open>detect_topic\<close>, in insertion order, which is the
  order \<open>topics.items()\<close> iterates in.\<close>

definition topics :: "(str \<times> str list) list" where
  "topics =
    [(lit ''mathematics'',
        [lit ''math'', lit ''algebra'', lit ''geometry'', lit ''calculus'', lit ''trigonometry'']),
     (lit ''science'', [lit ''physics'', lit ''chemistry'', lit ''biology'', lit ''science'']),
     (lit ''language'', [lit ''english'', lit ''grammar'', lit ''writing'', lit ''literature'']),
     (lit ''history'', [lit ''history'', lit ''historical'', lit ''civilization'', lit ''era'']),
     (lit ''technology'', [lit ''computer'', lit ''programming'', lit ''tech'', lit ''coding''])]"

text \<open>\<open>any(keyword in query.lower() for keyword in keywords)\<close>\<close>

definition any_in :: "unicode \<Rightarrow> str list \<Rightarrow> str \<Rightarrow> bool" where
  "any_in U keywords query = list_ex (\<lambda>keyword. str_in keyword (lower U query)) keywords"

text \<open>The loop of \<open>detect_topic\<close> over the remaining items: the first match sets
  \<open>current_topic\<close> and returns; falling off the end returns \<open>None\<close>.\<close>

fun detect_topic_loop ::
  "unicode \<Rightarrow> (str \<times> str list) list \<Rightarrow> conversation_context \<Rightarrow> str
     \<Rightarrow> str option \<times> conversation_context" where
  "detect_topic_loop U [] self query = (None, self)"
| "detect_topic_loop U ((topic, keywords) # rest) self query =
     (if any_in U keywords query
      then (Some topic, self\<lparr>current_topic := Some topic\<rparr>)
      else detect_topic_loop U rest self query)"

definition detect_topic ::
  "unicode \<Rightarrow> conversation_context \<Rightarrow> str \<Rightarrow> str option \<times> conversation_context" where
  "detect_topic U self query = detect_topic_loop U topics self query"

definition complexity_indicators :: "(str \<times> str list) list" where
  "complexity_indicators =
    [(lit ''advanced'',
        [lit ''prove'', lit ''derive'', lit ''complex'', lit ''advanced'', lit ''theoretical'']),
     (lit ''beginner'',
        [lit ''explain'', lit ''what is'', lit ''basic'', lit ''simple'', lit ''introduction''])]"

text \<open>The loop of \<open>adjust_difficulty\<close>: the first match sets \<open>difficulty_level\<close> and
  breaks.\<close>

fun adjust_difficulty_loop ::
  "unicode \<Rightarrow> (str \<times> str list) list \<Rightarrow> conversation_context \<Rightarrow> str
     \<Rightarrow> conversation_context" where
  "adjust_difficulty_loop U [] self query = self"
| "adjust_difficulty_loop U ((level, indicators) # rest) self query =
     (if any_in U indicators query
      then self\<lparr>difficulty_level := level\<rparr>
      else adjust_difficulty_loop U rest self query)"

definition adjust_difficulty ::
  "unicode \<Rightarrow> conversation_context \<Rightarrow> str \<Rightarrow> conversation_context" where
  "adjust_difficulty U self query = adjust_difficulty_loop U complexity_indicators self query"

section \<open>String operations of the standard library\<close>

text \<open>
  \<open>s.replace(old, new)\<close>: the occurrences of \<open>old\<close> are found from the left and do
  not overlap. With an empty \<open>old\<close>, \<open>new\<close> goes before every character and at the
  end. After an occurrence at the head of \<open>c # cs\<close> the scan goes on behind it, which
  is \<open>drop (length old - 1) cs\<close>.
\<close>

fun replace :: "str \<Rightarrow> str \<Rightarrow> str \<Rightarrow> str" where
  "replace old new [] = (if old = [] then new else [])"
| "replace old new (c # cs) =
     (if old = [] then new @ c # replace old new cs
      else if prefix old (c # cs) then new @ replace old new (drop (length old - 1) cs)
      else c # replace old new cs)"

text \<open>\<open>s.replace(old, new, 1)\<close>: the first occurrence only.\<close>

fun replace1 :: "str \<Rightarrow> str \<Rightarrow> str \<Rightarrow> str" where
  "replace1 old new [] = (if old = [] then new else [])"
| "replace1 old new (c # cs) =
     (if prefix old (c # cs) then new @ drop (length old) (c # cs)
      else c # replace1 old new cs)"

text \<open>
  \<open>s.split(sep)\<close> for a separator that is not empty (the program splits on
  \<open>'\n\n'\<close> only); \<open>cur\<close> is the piece read so far.
\<close>

fun split_from :: "str \<Rightarrow> str \<Rightarrow> str \<Rightarrow> str list" where
  "split_from sep cur [] = [cur]"
| "split_from sep cur (c # cs) =
     (if prefix sep (c # cs) then cur # split_from sep [] (drop (length sep - 1) cs)
      else split_from sep (cur @ [c]) cs)"

definition split :: "str \<Rightarrow> str \<Rightarrow> str list" where
  "split sep s = split_from sep [] s"

text \<open>\<open>sep.join(parts)\<close>\<close>

fun join :: "str \<Rightarrow> str list \<Rightarrow> str" where
  "join sep [] = []"
| "join sep [p] = p"
| "join sep (p # q # ps) = p @ sep @ join sep (q # ps)"

text \<open>
  The white space of \<open>str.strip()\<close>, \<open>str.isspace()\<close> and of the class \<open>\s\<close>:
  the ASCII controls 9 to 13 and 28 to 31, the space, and the Unicode separators.
\<close>

definition isspace :: "nat \<Rightarrow> bool" where
  "isspace c \<longleftrightarrow>
     (9 \<le> c \<and> c \<le> 13) \<or> (28 \<le> c \<and> c \<le> 32) \<or> c = 133 \<or> c = 160 \<or> c = 5760
     \<or> (8192 \<le> c \<and> c \<le> 8202) \<or> c = 8232 \<or> c = 8233 \<or> c = 8239 \<or> c = 8287
     \<or> c = 12288"

definition strip :: "str \<Rightarrow> str" where
  "strip s = rev (dropWhile isspace (rev (dropWhile isspace s)))"

text \<open>
  The class \<open>\d\<close>: the ASCII digits, and the code points outside ASCII that the
  Unicode table \<open>decimal\<close> lists. No decimal digit is white space.
\<close>

definition is_digit :: "unicode \<Rightarrow> nat \<Rightarrow> bool" where
  "is_digit U c \<longleftrightarrow> (48 \<le> c \<and> c \<le> 57) \<or> (128 \<le> c \<and> \<not> isspace c \<and> decimal U c)"

text \<open>The classes \<open>[a-zA-Z]\<close> and \<open>[0-9a-zA-Z]\<close>.\<close>

definition is_letter :: "nat \<Rightarrow> bool" where
  "is_letter c \<longleftrightarrow> (97 \<le> c \<and> c \<le> 122) \<or> (65 \<le> c \<and> c \<le> 90)"

definition is_alnum :: "nat \<Rightarrow> bool" where
  "is_alnum c \<longleftrightarrow> (48 \<le> c \<and> c \<le> 57) \<or> is_letter c"

section \<open>Regular expressions of the program\<close>

text \<open>
  The lazy group \<open>(.*?)\<close> followed by the literal \<open>close\<close>, matched at the head of a
  text: the shortest \<open>g\<close> with \<open>g @ close\<close> a prefix of the text. Without
  \<open>re.DOTALL\<close> the dot does not match a line feed, so the group ends the attempt at
  the first one.
\<close>

fun lazy_until :: "bool \<Rightarrow> str \<Rightarrow> str \<Rightarrow> str option" where
  "lazy_until dotall close [] = (if close = [] then Some [] else None)"
| "lazy_until dotall close (c # cs) =
     (if prefix close (c # cs) then Some []
      else if \<not> dotall \<and> c = 10 then None
      else map_option ((#) c) (lazy_until dotall close cs))"

text \<open>
  \<open>re.finditer\<close> for the pattern \<open>d(.*?)d\<close> with a literal delimiter \<open>d\<close>
  (\<open>$$\<close> with \<open>re.DOTALL\<close>, or \<open>$\<close> without): the matches from left to right, each
  as \<open>(group(0), group(1))\<close>. A match \<open>d @ g @ d\<close> at the head of \<open>c # cs\<close> is
  followed by \<open>drop (length g + 2 * length d - 1) cs\<close>; where the attempt fails the
  search moves one character on.
\<close>

fun finditer_delim :: "bool \<Rightarrow> str \<Rightarrow> str \<Rightarrow> (str \<times> str) list" where
  "finditer_delim dotall d [] = []"
| "finditer_delim dotall d (c # cs) =
     (if prefix d (c # cs) then
        (case lazy_until dotall d (drop (length d - 1) cs) of
           Some g \<Rightarrow> (d @ g @ d, g) # finditer_delim dotall d (drop (length g + 2 * length d - 1) cs)
         | None \<Rightarrow> finditer_delim dotall d cs)
      else finditer_delim dotall d cs)"

text \<open>\<open>re.sub\<close> for the same pattern: every match is replaced by \<open>repl g\<close>.\<close>

fun sub_delim :: "bool \<Rightarrow> str \<Rightarrow> (str \<Rightarrow> str) \<Rightarrow> str \<Rightarrow> str" where
  "sub_delim dotall d repl [] = []"
| "sub_delim dotall d repl (c # cs) =
     (if prefix d (c # cs) then
        (case lazy_until dotall d (drop (length d - 1) cs) of
           Some g \<Rightarrow> repl g @ sub_delim dotall d repl (drop (length g + 2 * length d - 1) cs)
         | None \<Rightarrow> c # sub_delim dotall d repl cs)
      else c # sub_delim dotall d repl cs)"

text \<open>
  \<open>re.sub(r'\n{3,}', '\n\n', text)\<close>: a run of three or more line feeds, taken
  whole, becomes two.
\<close>

fun sub_newlines :: "str \<Rightarrow> str" where
  "sub_newlines [] = []"
| "sub_newlines (c # cs) =
     (if c = 10 \<and> 2 \<le> length (takeWhile (\<lambda>x. x = 10) cs)
      then [10, 10] @ sub_newlines (drop (length (takeWhile (\<lambda>x. x = 10) cs)) cs)
      else c # sub_newlines cs)"

text \<open>
  \<open>Step\s*\d+:\<close> and \<open>Conclusion:\<close> at the head of a text: the length of the match.
  White space, digits and the colon are disjoint, so the greedy runs never give a
  character back.
\<close>

definition match_step :: "unicode \<Rightarrow> str \<Rightarrow> nat option" where
  "match_step U s =
     (if prefix (lit ''Step'') s then
        (let spaces = takeWhile isspace (drop 4 s);
             digits = takeWhile (is_digit U) (dropWhile isspace (drop 4 s));
             rest = dropWhile (is_digit U) (dropWhile isspace (drop 4 s))
         in if digits \<noteq> [] \<and> prefix (lit '':'') rest
            then Some (4 + length spaces + length digits + 1) else None)
      else None)"

definition match_conclusion :: "str \<Rightarrow> nat option" where
  "match_conclusion s = (if prefix (lit ''Conclusion:'') s then Some 11 else None)"

text \<open>
  \<open>re.sub(r'^(...)', r'**\1**', text, flags=re.MULTILINE)\<close> for a pattern \<open>m\<close> as
  above: \<open>^\<close> holds at the start of the text and behind every line feed, which \<open>bol\<close>
  records. Both patterns end with a colon, so the position behind a match is not the
  start of a line.
\<close>

fun sub_line_start :: "(str \<Rightarrow> nat option) \<Rightarrow> bool \<Rightarrow> str \<Rightarrow> str" where
  "sub_line_start m bol [] = []"
| "sub_line_start m bol (c # cs) =
     (case (if bol then m (c # cs) else None) of
        Some n \<Rightarrow>
          lit ''**'' @ take n (c # cs) @ lit ''**'' @ sub_line_start m False (drop (n - 1) cs)
      | None \<Rightarrow> c # sub_line_start m (c = 10) cs)"


section \<open>sanitize_response\<close>

text \<open>The five replacements that close \<open>sanitize_response\<close>, in the order of the
  source; the innermost is applied first. Code point 39 is the apostrophe.\<close>

definition escape_html :: "str \<Rightarrow> str" where
  "escape_html text =
     replace [39] (lit ''&#039;'')
       (replace (lit ''\"'') (lit ''&quot;'')
         (replace (lit ''>'') (lit ''&gt;'')
           (replace (lit ''<'') (lit ''&lt;'')
             (replace (lit ''&'') (lit ''&amp;'') text))))"

definition sanitize_response :: "unicode \<Rightarrow> str \<Rightarrow> str" where
  "sanitize_response U text0 =
     (let text = sub_newlines text0;
          text = sub_line_start (match_step U) True text;
          text = sub_line_start match_conclusion True text;
          text = sub_delim True (lit ''$$'') (\<lambda>g. lit ''**Equation:** '' @ g) text;
          text = sub_delim False (lit ''$'') (\<lambda>g. lit ''*'' @ g @ lit ''*'') text;
          text = strip text
      in escape_html text)"


text \<open>The text that \<open>sanitize_response\<close> hands to its five replacements: the input after
  the statements before them.\<close>

definition structural_cleanup :: "unicode \<Rightarrow> str \<Rightarrow> str" where
  "structural_cleanup U text0 =
     (let text = sub_newlines text0;
          text = sub_line_start (match_step U) True text;
          text = sub_line_start match_conclusion True text;
          text = sub_delim True (lit ''$$'') (\<lambda>g. lit ''**Equation:** '' @ g) text;
          text = sub_delim False (lit ''$'') (\<lambda>g. lit ''*'' @ g @ lit ''*'') text
      in strip text)"

text \<open>
  What escaping is meant to do, character by character: each of the five characters
  becomes its entity, once, and every other character stays. \<open>entities\<close> are the five
  strings the replacements insert.
\<close>

definition escape_char :: "nat \<Rightarrow> str" where
  "escape_char c =
     (if c = 38 then lit ''&amp;''
      else if c = 60 then lit ''&lt;''
      else if c = 62 then lit ''&gt;''
      else if c = 34 then lit ''&quot;''
      else if c = 39 then lit ''&#039;''
      else [c])"

definition entities :: "str list" where
  "entities = [lit ''&amp;'', lit ''&lt;'', lit ''&gt;'', lit ''&quot;'', lit ''&#039;'']"


section \<open>format_mathematical_notation\<close>

text \<open>
  The loop over \<open>equations\<close>. \<open>re.finditer\<close> reads the text it was called with, so
  the matches are those of the text before the loop, while every \<open>text.replace\<close>
  rewrites all occurrences in the text as it is by then.
\<close>

fun format_equations :: "(str \<times> str) list \<Rightarrow> str \<Rightarrow> str" where
  "format_equations [] text = text"
| "format_equations ((group0, group1) # eqs) text =
     format_equations eqs
       (replace group0 (lit ''<div class=\"equation\">'' @ strip group1 @ lit ''</div>'') text)"

text \<open>The loop over \<open>inline_math\<close>.\<close>

fun format_inline_math :: "(str \<times> str) list \<Rightarrow> str \<Rightarrow> str" where
  "format_inline_math [] text = text"
| "format_inline_math ((group0, group1) # ms) text =
     format_inline_math ms
       (replace group0 (lit ''<span class=\"math-expression\">'' @ strip group1 @ lit ''</span>'')
          text)"

text \<open>Splitting into steps on blank lines, wrapping the steps that are not blank, and
  joining them with a line feed.\<close>

definition format_steps :: "str \<Rightarrow> str" where
  "format_steps text =
     join [10]
       (map (\<lambda>step. lit ''<div class=\"solution-step\">'' @ strip step @ lit ''</div>'')
          (filter (\<lambda>step. strip step \<noteq> []) (split [10, 10] text)))"

text \<open>
  \<open>re.finditer(r'([a-zA-Z]_[0-9a-zA-Z]|[a-zA-Z])', text)\<close>: \<open>group(0)\<close> of every
  match, from left to right. The first alternative is tried first; the search goes on
  behind a match.
\<close>

fun finditer_symbols :: "str \<Rightarrow> str list" where
  "finditer_symbols (a # b # c # cs) =
     (if is_letter a \<and> b = 95 \<and> is_alnum c then [a, b, c] # finditer_symbols cs
      else if is_letter a then [a] # finditer_symbols (b # c # cs)
      else finditer_symbols (b # c # cs))"
| "finditer_symbols (a # cs) =
     (if is_letter a then [a] # finditer_symbols cs else finditer_symbols cs)"
| "finditer_symbols [] = []"

definition stopwords :: "str list" where
  "stopwords =
     [lit ''a'', lit ''an'', lit ''the'', lit ''in'', lit ''on'', lit ''at'', lit ''to'', lit ''for'']"

definition formatted_symbol :: "str \<Rightarrow> str" where
  "formatted_symbol symbol = lit ''<span class=\"symbol\">'' @ symbol @ lit ''</span>''"

text \<open>The loop over \<open>symbols\<close>: a stop word is skipped (\<open>continue\<close>); for any other
  match one occurrence, the first in the text as it is by then, is replaced.\<close>

fun format_symbols :: "str list \<Rightarrow> str \<Rightarrow> str" where
  "format_symbols [] text = text"
| "format_symbols (symbol # symbols) text =
     (if symbol \<in> set stopwords then format_symbols symbols text
      else format_symbols symbols (replace1 symbol (formatted_symbol symbol) text))"

text \<open>Code point 215 is the multiplication sign.\<close>

definition format_mathematical_notation :: "str \<Rightarrow> str" where
  "format_mathematical_notation text0 =
     (let text = replace (lit ''**'') (lit ''^'') text0;
          text = replace (lit ''*'') [215] text;
          text = format_equations (finditer_delim True (lit ''$$'') text) text;
          text = format_inline_math (finditer_delim False (lit ''$'') text) text;
          text = format_steps text
      in format_symbols (finditer_symbols text) text)"


text \<open>The text that \<open>format_mathematical_notation\<close> hands to its final pass, the loop
  over \<open>symbols\<close>.\<close>

definition steps_text :: "str \<Rightarrow> str" where
  "steps_text text0 =
     (let text = replace (lit ''**'') (lit ''^'') text0;
          text = replace (lit ''*'') [215] text;
          text = format_equations (finditer_delim True (lit ''$$'') text) text;
          text = format_inline_math (finditer_delim False (lit ''$'') text) text
      in format_steps text)"

text \<open>
  The final pass as the specification words it: every distinct match outside the stop
  words has its first occurrence wrapped, once. \<open>first_occurrences\<close> keeps the
  distinct strings of a list in the order in which they first appear.
\<close>

definition first_occurrences :: "str list \<Rightarrow> str list" where
  "first_occurrences xs = rev (remdups (rev xs))"

definition highlight_distinct :: "str \<Rightarrow> str" where
  "highlight_distinct t =
     foldl (\<lambda>u s. replace1 s (formatted_symbol s) u) t
       (first_occurrences (filter (\<lambda>s. s \<notin> set stopwords) (finditer_symbols t)))"

text \<open>The number of positions of a text at which \<open>sub\<close> starts.\<close>

fun count_sub :: "str \<Rightarrow> str \<Rightarrow> nat" where
  "count_sub sub [] = 0"
| "count_sub sub (c # cs) = (if prefix sub (c # cs) then 1 else 0) + count_sub sub cs"


section \<open>generate_response_with_context and the endpoint\<close>

text \<open>\<open>generate_emoji\<close>: \<open>random.choice\<close> returns the element at an index below the
  length of the list; the number the generator draws is the input \<open>r\<close>.\<close>

definition emojis :: "str list" where
  "emojis =
     [[128522], [127775], [128077], [128640], [129300], [128161], [128218], [127891],
      [129504], [10024], [127752], [128079], [129299], [128170], [127774]]"

definition generate_emoji :: "nat \<Rightarrow> str" where
  "generate_emoji r = emojis ! (r mod length emojis)"

definition trigger_words :: "str list" where
  "trigger_words =
     [lit ''dimension'', lit ''dimensional analysis'', lit ''viscosity'', lit ''prove'',
      lit ''derivation'']"

text \<open>The passage of the special case, line by line.\<close>

definition canned_response :: str where
  "canned_response =
     [128558, 8205, 128168] @ lit '' '' @ [128151] @ lit '' Dimensional Analysis of Viscosity'' @ [10]
     @ [10]
     @ lit ''**Step 1: Define the Physical Quantity**'' @ [10]
     @ lit ''Viscosity ('' @ [951] @ lit '') is a measure of a fluid's resistance to flow, defined as the ratio of shear stress to shear rate.'' @ [10]
     @ [10]
     @ lit ''**Symbolic Representation:**'' @ [10]
     @ [951] @ lit '' = '' @ [964] @ lit '' / '' @ [947, 775, 10]
     @ [10]
     @ lit ''**Step 2: Dimensional Analysis of Components**'' @ [10]
     @ lit ''- Shear Stress ('' @ [964] @ lit ''): Force per unit area'' @ [10]
     @ lit ''  * Dimensions: [M L T^-2] / [L^2] = [M L^-1 T^-2]'' @ [10]
     @ lit ''- Shear Rate ('' @ [947, 775] @ lit ''): Velocity gradient'' @ [10]
     @ lit ''  * Dimensions: [L T^-1] / [L] = [T^-1]'' @ [10]
     @ [10]
     @ lit ''**Step 3: Dimensional Consistency**'' @ [10]
     @ lit ''Combining the dimensions:'' @ [10]
     @ lit ''['' @ [964] @ lit '' / '' @ [947, 775] @ lit ''] = [M L^-1 T^-2] / [T^-1] = [M L^-1 T^-1]'' @ [10]
     @ [10]
     @ lit ''**Step 4: Physical Interpretation**'' @ [10]
     @ lit ''The dimensional analysis confirms that viscosity has consistent units:'' @ [10]
     @ lit ''- Mass per length per time'' @ [10]
     @ lit ''- Typically expressed in Pascal-seconds (Pa'' @ [183] @ lit ''s)'' @ [10]
     @ [10]
     @ lit ''**Key Insights:**'' @ [10]
     @ lit ''- Viscosity quantifies a fluid's internal resistance to flow'' @ [10]
     @ lit ''- Dimensional analysis validates the physical meaning of the quantity'' @ [10]"

text \<open>\<open>str(n)\<close> of a length, for the f-string.\<close>

fun decimal_str :: "nat \<Rightarrow> str" where
  "decimal_str n = (if n < 10 then [48 + n] else decimal_str (n div 10) @ [48 + n mod 10])"

definition context_prompt :: "str \<Rightarrow> nat \<Rightarrow> str" where
  "context_prompt query n =
     lit ''Context:'' @ [10]
     @ lit ''- Current Query: '' @ query @ [10]
     @ lit ''- Conversation History: '' @ decimal_str n @ lit '' previous interactions'' @ [10]
     @ [10]
     @ lit ''Guidelines:'' @ [10]
     @ lit ''1. Provide a clear, comprehensive response'' @ [10]
     @ lit ''2. Break down complex topics into digestible steps'' @ [10]
     @ lit ''3. Use engaging and accessible language'' @ [10]
     @ lit ''4. Include practical examples or real-world applications'' @ [10]
     @ lit ''5. Use standard mathematical notation for equations'' @ [10]
     @ [10]
     @ lit ''Query: '' @ query @ [10]"

definition apology :: str where
  "apology = lit ''I'm sorry, I encountered an error processing your query. ''"

text \<open>
  \<open>generate_response_with_context\<close>. \<open>client\<close> is the external model: from the prompt
  to \<open>response.text\<close>, or to the exception that \<open>model.generate_content\<close> or reading
  \<open>.text\<close> raises. \<open>ctx\<close> is the global \<open>conversation_context\<close>. A query that is not
  a string has no \<open>lower\<close>: the first statement raises \<open>AttributeError\<close>, outside the
  \<open>try\<close>. Writing to the log is not modelled.
\<close>

definition generate_response_with_context ::
  "unicode \<Rightarrow> (str \<Rightarrow> error + str) \<Rightarrow> nat \<Rightarrow> conversation_context \<Rightarrow> json \<Rightarrow> error + str" where
  "generate_response_with_context U client r ctx query =
     (case query of
        JString q \<Rightarrow>
          if any_in U trigger_words q
          then Inr (format_mathematical_notation canned_response)
          else (case client (context_prompt q (length (history ctx))) of
                  Inr text \<Rightarrow> Inr (sanitize_response U (format_mathematical_notation text))
                | Inl e \<Rightarrow> Inr (apology @ generate_emoji r))
      | _ \<Rightarrow> Inl AttributeError)"

text \<open>A model client that raises on every prompt, and one that returns its text.\<close>

definition failing_client :: "str \<Rightarrow> error + str" where
  "failing_client prompt = Inl ClientError"

definition answering_client :: "str \<Rightarrow> str \<Rightarrow> error + str" where
  "answering_client answer prompt = Inr answer"

text \<open>What \<open>jsonify\<close> is given, and the status of the reply.\<close>

record reply =
  success :: bool
  response :: "str option"
  failure :: "error option"
  status :: nat

definition reply_ok :: "str \<Rightarrow> reply" where
  "reply_ok text = \<lparr>success = True, response = Some text, failure = None, status = 200\<rparr>"

definition reply_error :: "error \<Rightarrow> reply" where
  "reply_error e = \<lparr>success = False, response = None, failure = Some e, status = 500\<rparr>"

text \<open>\<open>data.get(key, dflt)\<close> on the parsed body: only a dictionary has \<open>get\<close>.\<close>

definition data_get :: "json \<Rightarrow> str \<Rightarrow> json \<Rightarrow> error + json" where
  "data_get data key dflt =
     (case data of
        JObject items \<Rightarrow> (case map_of items key of Some v \<Rightarrow> Inr v | None \<Rightarrow> Inr dflt)
      | _ \<Rightarrow> Inl AttributeError)"

text \<open>
  The handler of \<open>/api/query\<close>. \<open>request_json\<close> is what reading \<open>request.json\<close> gives:
  the parsed body, or the exception of a body that is not JSON. Every exception ends in
  the \<open>except\<close> branch, with the context as the statements before it left it. The
  handler returns the reply and the context.
\<close>

definition query ::
  "unicode \<Rightarrow> (str \<Rightarrow> error + str) \<Rightarrow> nat \<Rightarrow> conversation_context \<Rightarrow> error + json
     \<Rightarrow> reply \<times> conversation_context" where
  "query U client r ctx request_json =
     (case request_json of
        Inl e \<Rightarrow> (reply_error e, ctx)
      | Inr data \<Rightarrow>
          (case data_get data (lit ''query'') (JString []) of
             Inl e \<Rightarrow> (reply_error e, ctx)
           | Inr query_text \<Rightarrow>
               (case data_get data (lit ''regenerate'') (JBool False) of
                  Inl e \<Rightarrow> (reply_error e, ctx)
                | Inr is_regeneration \<Rightarrow>
                    (case generate_response_with_context U client r ctx query_text of
                       Inl e \<Rightarrow> (reply_error e, ctx)
                     | Inr response_text \<Rightarrow>
                         (case add_interaction ctx query_text (JString response_text) of
                            Inl e \<Rightarrow> (reply_error e, ctx)
                          | Inr ctx' \<Rightarrow> (reply_ok response_text, ctx'))))))"


section \<open>The history is a bounded queue\<close>

lemma add_interaction_step:
  assumes "1 \<le> max_history self" and "int (length (history self)) \<le> max_history self"
  shows "add_interaction self q r =
    Inr (self\<lparr>history :=
      drop (length (history self) + 1 - nat (max_history self))
        (history self @ [\<lparr>user_query = q, ai_response = r\<rparr>])\<rparr>)"
proof (cases "int (length (history self)) = max_history self")
  case True
  then obtain h hs where hs: "history self = h # hs"
    using assms(1) by (cases "history self") auto
  have "length (history self) + 1 - nat (max_history self) = 1"
    using True assms(1) by linarith
  then show ?thesis
    using True hs by (simp add: add_interaction_def)
next
  case False
  then have lt: "int (length (history self)) < max_history self"
    using assms(2) by simp
  then have "length (history self) + 1 - nat (max_history self) = 0"
    by linarith
  then show ?thesis
    using lt by (simp add: add_interaction_def)
qed

lemma add_interactions_general:
  assumes "1 \<le> max_history self" and "int (length (history self)) \<le> max_history self"
  shows "add_interactions self calls =
    Inr (self\<lparr>history :=
      drop (length (history self) + length calls - nat (max_history self))
        (history self @ map (\<lambda>(q, r). \<lparr>user_query = q, ai_response = r\<rparr>) calls)\<rparr>)"
  using assms
proof (induction calls arbitrary: self)
  case Nil
  then have "length (history self) - nat (max_history self) = 0" by linarith
  then show ?case by simp
next
  case (Cons c calls)
  obtain q r where c: "c = (q, r)" by (cases c)
  let ?new = "\<lparr>user_query = q, ai_response = r\<rparr>"
  let ?n = "nat (max_history self)"
  let ?h = "history self"
  let ?self' = "self\<lparr>history := drop (length ?h + 1 - ?n) (?h @ [?new])\<rparr>"
  have step: "add_interaction self q r = Inr ?self'"
    using Cons.prems by (rule add_interaction_step)
  have m: "max_history ?self' = max_history self" by simp
  have len: "length (history ?self') = length ?h + 1 - (length ?h + 1 - ?n)" by simp
  have le: "int (length (history ?self')) \<le> max_history ?self'"
    using Cons.prems len m by linarith
  have ih: "add_interactions ?self' calls =
    Inr (?self'\<lparr>history :=
      drop (length (history ?self') + length calls - nat (max_history ?self'))
        (history ?self' @ map (\<lambda>(q, r). \<lparr>user_query = q, ai_response = r\<rparr>) calls)\<rparr>)"
    using Cons.IH[of ?self'] Cons.prems(1) le m by simp
  have d: "drop (length (history ?self') + length calls - ?n)
             (history ?self' @ map (\<lambda>(q, r). \<lparr>user_query = q, ai_response = r\<rparr>) calls)
         = drop (length ?h + length (c # calls) - ?n)
             (?h @ map (\<lambda>(q, r). \<lparr>user_query = q, ai_response = r\<rparr>) (c # calls))"
  proof -
    define k where "k = length ?h + 1 - ?n"
    define M where "M = map (\<lambda>(q, r). \<lparr>user_query = q, ai_response = r\<rparr>) calls"
    define X where "X = ?h @ [?new]"
    have hs: "history ?self' = drop k X" by (simp add: k_def X_def)
    have "k \<le> length X" by (simp add: k_def X_def)
    then have e1: "drop k X @ M = drop k (X @ M)" by simp
    have ar: "(L + 1 - k') + cl - n + k' = L + Suc cl - n"
      if "k' = L + 1 - n" "L \<le> n" "1 \<le> n" for L cl n k' :: nat
      using that by arith
    have Ln: "length ?h \<le> ?n" and n1: "1 \<le> ?n"
      using Cons.prems by linarith+
    have lx: "length (drop k X) = length ?h + 1 - k" by (simp add: X_def)
    have e3: "length (drop k X) + length calls - ?n + k = length ?h + length (c # calls) - ?n"
      unfolding lx using ar[OF k_def Ln n1, of "length calls"] by simp
    have xm: "X @ M = ?h @ map (\<lambda>(q, r). \<lparr>user_query = q, ai_response = r\<rparr>) (c # calls)"
      by (simp add: X_def M_def c)
    have "drop (length (history ?self') + length calls - ?n) (history ?self' @ M)
        = drop (length (drop k X) + length calls - ?n) (drop k (X @ M))"
      by (simp only: hs e1)
    also have "\<dots> = drop (length (drop k X) + length calls - ?n + k) (X @ M)"
      by (rule drop_drop)
    also have "\<dots> = drop (length ?h + length (c # calls) - ?n) (X @ M)"
      by (simp only: e3)
    finally have "drop (length (history ?self') + length calls - ?n) (history ?self' @ M)
        = drop (length ?h + length (c # calls) - ?n) (X @ M)" .
    then show ?thesis
      unfolding xm unfolding M_def .
  qed
  show ?case
    unfolding c add_interactions.simps step sum.case ih m d by simp
qed


text \<open>
  C2. A context created with \<open>max_history = n\<close>, \<open>n \<ge> 1\<close>, takes every sequence of
  \<open>add_interaction\<close> calls without raising; afterwards the history holds the last \<open>n\<close>
  calls in order (all of them while there are fewer), so it never has more than \<open>n\<close>
  entries, and after \<open>n + 1\<close> calls it holds exactly the \<open>n\<close> latest, the first one
  gone. A call that finds the history full drops the oldest entry and appends the new
  pair. Since \<open>calls\<close> is any sequence, the bound holds after every prefix of a run.
\<close>

theorem add_interaction_fifo:
  assumes "1 \<le> n"
  shows "(\<exists>self'. add_interactions (init n) calls = Inr self'
            \<and> max_history self' = n
            \<and> history self' =
                map (\<lambda>(q, r). \<lparr>user_query = q, ai_response = r\<rparr>)
                  (drop (length calls - nat n) calls)
            \<and> int (length (history self')) \<le> n
            \<and> (int (length calls) = n + 1 \<longrightarrow>
                  history self' = map (\<lambda>(q, r). \<lparr>user_query = q, ai_response = r\<rparr>) (tl calls)
                  \<and> int (length (history self')) = n))
       \<and> (\<forall>self q r. max_history self = n \<and> int (length (history self)) = n \<longrightarrow>
             add_interaction self q r =
               Inr (self\<lparr>history := tl (history self) @ [\<lparr>user_query = q, ai_response = r\<rparr>]\<rparr>))"
proof (intro conjI allI impI)
  let ?mk = "\<lambda>(q, r). \<lparr>user_query = q, ai_response = r\<rparr>"
  let ?s = "(init n)\<lparr>history := map ?mk (drop (length calls - nat n) calls)\<rparr>"
  have run: "add_interactions (init n) calls = Inr ?s"
    using add_interactions_general[of "init n" calls] assms
    by (simp add: init_def drop_map)
  have len: "int (length (history ?s)) \<le> n"
    using assms by simp
  have full: "history ?s = map ?mk (tl calls) \<and> int (length (history ?s)) = n"
    if "int (length calls) = n + 1"
  proof -
    have "length calls - nat n = 1" using that assms by linarith
    then show ?thesis using that by (simp add: drop_Suc)
  qed
  show "\<exists>self'. add_interactions (init n) calls = Inr self'
            \<and> max_history self' = n
            \<and> history self' = map ?mk (drop (length calls - nat n) calls)
            \<and> int (length (history self')) \<le> n
            \<and> (int (length calls) = n + 1 \<longrightarrow>
                  history self' = map ?mk (tl calls) \<and> int (length (history self')) = n)"
    using run len full by (intro exI[of _ ?s]) (simp add: init_def)
next
  fix self :: conversation_context and q r :: json
  assume a: "max_history self = n \<and> int (length (history self)) = n"
  then obtain h hs where "history self = h # hs"
    using assms by (cases "history self") auto
  then show "add_interaction self q r =
      Inr (self\<lparr>history := tl (history self) @ [\<lparr>user_query = q, ai_response = r\<rparr>]\<rparr>)"
    using a by (simp add: add_interaction_def)
qed

text \<open>With \<open>max_history = 2\<close>, the third call evicts the first.\<close>

theorem add_interaction_fifo_witness:
  "(1::int) \<le> 2 \<and>
   add_interactions (init 2) [(JString (lit ''a''), JString (lit ''x'')), (JString (lit ''b''), JString (lit ''y'')),
      (JString (lit ''c''), JString (lit ''z''))]
     = Inr ((init 2)\<lparr>history := [\<lparr>user_query = JString (lit ''b''), ai_response = JString (lit ''y'')\<rparr>,
          \<lparr>user_query = JString (lit ''c''), ai_response = JString (lit ''z'')\<rparr>]\<rparr>)"
  using add_interaction_fifo[of 2 "[(JString (lit ''a''), JString (lit ''x'')), (JString (lit ''b''), JString (lit ''y'')),
      (JString (lit ''c''), JString (lit ''z''))]"]
  by (simp add: init_def add_interaction_def)

section \<open>Topic and difficulty detection\<close>

lemma detect_topic_loop_find:
  "detect_topic_loop U ts self q =
     (case find (\<lambda>(topic, keywords). \<exists>keyword \<in> set keywords. sublist keyword (lower U q)) ts of
        None \<Rightarrow> (None, self)
      | Some (topic, keywords) \<Rightarrow> (Some topic, self\<lparr>current_topic := Some topic\<rparr>))"
  by (induction ts) (auto simp: any_in_def str_in_def list_ex_iff)

lemma adjust_difficulty_loop_find:
  "adjust_difficulty_loop U ts self q =
     (case find (\<lambda>(level, indicators). \<exists>indicator \<in> set indicators. sublist indicator (lower U q)) ts of
        None \<Rightarrow> self
      | Some (level, indicators) \<Rightarrow> self\<lparr>difficulty_level := level\<rparr>)"
  by (induction ts) (auto simp: any_in_def str_in_def list_ex_iff)

text \<open>
  C6. \<open>detect_topic\<close> looks for the first entry of \<open>topics\<close>, in the order
  mathematics, science, language, history, technology, one of whose keywords occurs in
  the lower-cased query. It returns that topic and stores it in \<open>current_topic\<close>; with
  no such entry it returns \<open>None\<close> and the context is the one it was given. On
  \<open>"I need help with calculus"\<close> it answers mathematics and on \<open>"good morning"\<close>
  \<open>None\<close>, for every \<open>lower\<close> that lower-cases these two ASCII strings as Python does.
\<close>

theorem detect_topic_first_match:
  "detect_topic U self q =
     (case find (\<lambda>(topic, keywords). \<exists>keyword \<in> set keywords. sublist keyword (lower U q)) topics of
        None \<Rightarrow> (None, self)
      | Some (topic, keywords) \<Rightarrow> (Some topic, self\<lparr>current_topic := Some topic\<rparr>))
   \<and> map fst topics =
       [lit ''mathematics'', lit ''science'', lit ''language'', lit ''history'', lit ''technology'']
   \<and> (lower U (lit ''I need help with calculus'') = lit ''i need help with calculus'' \<longrightarrow>
        detect_topic U self (lit ''I need help with calculus'')
          = (Some (lit ''mathematics''), self\<lparr>current_topic := Some (lit ''mathematics'')\<rparr>))
   \<and> (lower U (lit ''good morning'') = lit ''good morning'' \<longrightarrow>
        detect_topic U self (lit ''good morning'') = (None, self))"
proof (intro conjI impI)
  show "detect_topic U self q =
     (case find (\<lambda>(topic, keywords). \<exists>keyword \<in> set keywords. sublist keyword (lower U q)) topics of
        None \<Rightarrow> (None, self)
      | Some (topic, keywords) \<Rightarrow> (Some topic, self\<lparr>current_topic := Some topic\<rparr>))"
    unfolding detect_topic_def by (rule detect_topic_loop_find)
  show "map fst topics =
       [lit ''mathematics'', lit ''science'', lit ''language'', lit ''history'', lit ''technology'']"
    by (simp add: topics_def)
next
  assume "lower U (lit ''I need help with calculus'') = lit ''i need help with calculus''"
  then show "detect_topic U self (lit ''I need help with calculus'')
          = (Some (lit ''mathematics''), self\<lparr>current_topic := Some (lit ''mathematics'')\<rparr>)"
    by (simp add: detect_topic_def topics_def any_in_def str_in_def lit_def sublist_code prefix_code)
next
  assume "lower U (lit ''good morning'') = lit ''good morning''"
  then show "detect_topic U self (lit ''good morning'') = (None, self)"
    by (simp add: detect_topic_def topics_def any_in_def str_in_def lit_def sublist_code prefix_code)
qed


text \<open>The two examples, with the ASCII tables.\<close>

theorem detect_topic_first_match_witness:
  "lower ascii_unicode (lit ''I need help with calculus'') = lit ''i need help with calculus''
   \<and> detect_topic ascii_unicode (init 5) (lit ''I need help with calculus'')
       = (Some (lit ''mathematics''), (init 5)\<lparr>current_topic := Some (lit ''mathematics'')\<rparr>)
   \<and> lower ascii_unicode (lit ''good morning'') = lit ''good morning''
   \<and> detect_topic ascii_unicode (init 5) (lit ''good morning'') = (None, init 5)"
proof -
  have l1: "lower ascii_unicode (lit ''I need help with calculus'') = lit ''i need help with calculus''"
    by (simp add: ascii_unicode_def ascii_lower_def lit_def)
  have l2: "lower ascii_unicode (lit ''good morning'') = lit ''good morning''"
    by (simp add: ascii_unicode_def ascii_lower_def lit_def)
  show ?thesis
    using detect_topic_first_match[of ascii_unicode "init 5" "[]"] l1 l2 by simp
qed

text \<open>
  C7. \<open>adjust_difficulty\<close> tries the indicators of \<open>advanced\<close>, then those of
  \<open>beginner\<close>, against the lower-cased query; the first level with an indicator in
  the query becomes \<open>difficulty_level\<close> and the search stops, and with no match the
  context is returned as it was. \<open>"explain what is gravity"\<close> gives beginner and
  \<open>"prove the derivation"\<close> gives advanced.
\<close>

theorem adjust_difficulty_first_match:
  "adjust_difficulty U self q =
     (case find (\<lambda>(level, indicators).
                   \<exists>indicator \<in> set indicators. sublist indicator (lower U q))
             complexity_indicators of
        None \<Rightarrow> self
      | Some (level, indicators) \<Rightarrow> self\<lparr>difficulty_level := level\<rparr>)
   \<and> map fst complexity_indicators = [lit ''advanced'', lit ''beginner'']
   \<and> (lower U (lit ''explain what is gravity'') = lit ''explain what is gravity'' \<longrightarrow>
        adjust_difficulty U self (lit ''explain what is gravity'')
          = self\<lparr>difficulty_level := lit ''beginner''\<rparr>)
   \<and> (lower U (lit ''prove the derivation'') = lit ''prove the derivation'' \<longrightarrow>
        adjust_difficulty U self (lit ''prove the derivation'')
          = self\<lparr>difficulty_level := lit ''advanced''\<rparr>)"
proof (intro conjI impI)
  show "adjust_difficulty U self q =
     (case find (\<lambda>(level, indicators).
                   \<exists>indicator \<in> set indicators. sublist indicator (lower U q))
             complexity_indicators of
        None \<Rightarrow> self
      | Some (level, indicators) \<Rightarrow> self\<lparr>difficulty_level := level\<rparr>)"
    unfolding adjust_difficulty_def by (rule adjust_difficulty_loop_find)
  show "map fst complexity_indicators = [lit ''advanced'', lit ''beginner'']"
    by (simp add: complexity_indicators_def)
next
  assume "lower U (lit ''explain what is gravity'') = lit ''explain what is gravity''"
  then show "adjust_difficulty U self (lit ''explain what is gravity'')
          = self\<lparr>difficulty_level := lit ''beginner''\<rparr>"
    by (simp add: adjust_difficulty_def complexity_indicators_def any_in_def str_in_def lit_def
        sublist_code prefix_code)
next
  assume "lower U (lit ''prove the derivation'') = lit ''prove the derivation''"
  then show "adjust_difficulty U self (lit ''prove the derivation'')
          = self\<lparr>difficulty_level := lit ''advanced''\<rparr>"
    by (simp add: adjust_difficulty_def complexity_indicators_def any_in_def str_in_def lit_def
        sublist_code prefix_code)
qed

text \<open>The two examples, with the ASCII tables.\<close>

theorem adjust_difficulty_first_match_witness:
  "lower ascii_unicode (lit ''explain what is gravity'') = lit ''explain what is gravity''
   \<and> adjust_difficulty ascii_unicode (init 5) (lit ''explain what is gravity'')
       = (init 5)\<lparr>difficulty_level := lit ''beginner''\<rparr>
   \<and> lower ascii_unicode (lit ''prove the derivation'') = lit ''prove the derivation''
   \<and> adjust_difficulty ascii_unicode (init 5) (lit ''prove the derivation'')
       = (init 5)\<lparr>difficulty_level := lit ''advanced''\<rparr>"
proof -
  have l1: "lower ascii_unicode (lit ''explain what is gravity'') = lit ''explain what is gravity''"
    by (simp add: ascii_unicode_def ascii_lower_def lit_def)
  have l2: "lower ascii_unicode (lit ''prove the derivation'') = lit ''prove the derivation''"
    by (simp add: ascii_unicode_def ascii_lower_def lit_def)
  show ?thesis
    using adjust_difficulty_first_match[of ascii_unicode "init 5" "[]"] l1 l2 by simp
qed

section \<open>Escaping\<close>

lemma replace_single:
  "replace [c] new s = concat (map (\<lambda>x. if x = c then new else [x]) s)"
  by (induction s) auto

lemma concat_map_concat_map:
  "concat (map f (concat (map g s))) = concat (map (\<lambda>x. concat (map f (g x))) s)"
  by (induction s) simp_all

lemma escape_html_chars: "escape_html t = concat (map escape_char t)"
proof -
  have l: "lit ''&'' = [38]" "lit ''<'' = [60]" "lit ''>'' = [62]" "lit ''\"'' = [34]"
    by (simp_all add: lit_def)
  have "escape_html t = concat (map (\<lambda>x.
      concat (map (\<lambda>x. if x = 39 then lit ''&#039;'' else [x])
        (concat (map (\<lambda>x. if x = 34 then lit ''&quot;'' else [x])
          (concat (map (\<lambda>x. if x = 62 then lit ''&gt;'' else [x])
            (concat (map (\<lambda>x. if x = 60 then lit ''&lt;'' else [x])
              (if x = 38 then lit ''&amp;'' else [x]))))))))) t)"
    unfolding escape_html_def l replace_single concat_map_concat_map ..
  also have "\<dots> = concat (map escape_char t)"
    by (rule arg_cong[where f = concat], rule map_cong[OF refl])
       (simp add: escape_char_def lit_def)
  finally show ?thesis .
qed


lemma entity_shape:
  assumes "e \<in> set entities"
  shows "\<exists>e'. e = 38 # e' \<and> 38 \<notin> set e' \<and> 60 \<notin> set e \<and> 62 \<notin> set e \<and> 34 \<notin> set e \<and> 39 \<notin> set e"
  using assms by (auto simp: entities_def lit_def)

lemma escape_char_cases:
  "escape_char c \<in> set entities \<or> (escape_char c = [c] \<and> c \<notin> {38, 60, 62, 34, 39})"
  by (simp add: escape_char_def entities_def)

lemma amp_block:
  assumes r: "\<forall>i<length r. r ! i = 38 \<longrightarrow> (\<exists>e\<in>set entities. prefix e (drop i r))"
    and b: "b \<in> set entities \<or> (\<exists>x. b = [x] \<and> x \<noteq> 38)"
  shows "\<forall>i<length (b @ r). (b @ r) ! i = 38 \<longrightarrow> (\<exists>e\<in>set entities. prefix e (drop i (b @ r)))"
proof (intro allI impI)
  fix i
  assume i: "i < length (b @ r)" and amp: "(b @ r) ! i = 38"
  show "\<exists>e\<in>set entities. prefix e (drop i (b @ r))"
  proof (cases "i < length b")
    case True
    then have bi: "b ! i = 38" using amp by (simp add: nth_append)
    from b show ?thesis
    proof
      assume e: "b \<in> set entities"
      then obtain e' where e': "b = 38 # e'" "38 \<notin> set e'"
        using entity_shape by blast
      have "i = 0"
      proof (rule ccontr)
        assume "i \<noteq> 0"
        then obtain j where j: "i = Suc j" by (cases i) auto
        then have "e' ! j = 38" "j < length e'" using bi True e' by auto
        then show False using e'(2) nth_mem by metis
      qed
      moreover have "prefix b (b @ r)" by simp
      ultimately show ?thesis using e by (intro bexI[of _ b]) simp_all
    next
      assume "\<exists>x. b = [x] \<and> x \<noteq> 38"
      then show ?thesis using bi True by auto
    qed
  next
    case False
    then have "i - length b < length r" "r ! (i - length b) = 38"
      using i amp by (auto simp: nth_append)
    then obtain e where "e \<in> set entities" "prefix e (drop (i - length b) r)"
      using r by blast
    then show ?thesis using False by auto
  qed
qed

lemma amp_escaped:
  "\<forall>i<length (concat (map escape_char t)).
      concat (map escape_char t) ! i = 38 \<longrightarrow>
      (\<exists>e\<in>set entities. prefix e (drop i (concat (map escape_char t))))"
proof (induction t)
  case Nil
  then show ?case by simp
next
  case (Cons c t)
  have "escape_char c \<in> set entities \<or> (\<exists>x. escape_char c = [x] \<and> x \<noteq> 38)"
    using escape_char_cases[of c] by auto
  from amp_block[OF Cons.IH this] show ?case by simp
qed

lemma escaped_chars:
  "x \<in> set (concat (map escape_char t)) \<Longrightarrow> x \<notin> {60, 62, 34, 39}"
proof (induction t)
  case Nil
  then show ?case by simp
next
  case (Cons c t)
  from Cons.prems have "x \<in> set (escape_char c) \<or> x \<in> set (concat (map escape_char t))"
    by simp
  then show ?case
  proof
    assume x: "x \<in> set (escape_char c)"
    from escape_char_cases[of c] show ?thesis
    proof
      assume "escape_char c \<in> set entities"
      from entity_shape[OF this] x show ?thesis by auto
    next
      assume "escape_char c = [c] \<and> c \<notin> {38, 60, 62, 34, 39}"
      then show ?thesis using x by auto
    qed
  next
    assume "x \<in> set (concat (map escape_char t))"
    then show ?thesis by (rule Cons.IH)
  qed
qed

lemma sanitize_response_escape_html:
  "\<exists>t. sanitize_response U text = escape_html t"
  unfolding sanitize_response_def Let_def by blast

lemma sanitize_response_no_html:
  "x \<in> set (sanitize_response U text) \<Longrightarrow> x \<notin> {60, 62, 34, 39}"
proof -
  obtain t where "sanitize_response U text = escape_html t"
    using sanitize_response_escape_html by blast
  then show "x \<in> set (sanitize_response U text) \<Longrightarrow> x \<notin> {60, 62, 34, 39}"
    using escaped_chars[of x t] by (simp add: escape_html_chars)
qed

lemma sanitize_response_cleanup:
  "sanitize_response U text0 = escape_html (structural_cleanup U text0)"
  by (simp add: sanitize_response_def structural_cleanup_def Let_def)

lemma cleanup_leaves_markup:
  "structural_cleanup U (lit ''<a href=\"x\">Tom & Jerry's</a>'')
     = lit ''<a href=\"x\">Tom & Jerry's</a>''"
  by code_simp

lemma escape_html_markup:
  "escape_html (lit ''<a href=\"x\">Tom & Jerry's</a>'')
     = lit ''&lt;a href=&quot;x&quot;&gt;Tom &amp; Jerry&#039;s&lt;/a&gt;''"
  by code_simp

text \<open>
  C1. For every input, \<open>sanitize_response\<close> is the five replacements in the order
  \<open>&\<close>, \<open><\<close>, \<open>>\<close>, \<open>"\<close>, \<open>'\<close>, each over the result of the ones before, applied to
  the input as the statements before them left it (\<open>structural_cleanup\<close>). Together
  they replace every character of that text by its entity once (\<open>escape_char\<close>): the
  ampersands of the entities are not escaped again. So the output has no \<open><\<close> (60),
  \<open>>\<close> (62), \<open>"\<close> (34) or \<open>'\<close> (39), and wherever it has an \<open>&\<close> (38) one of the five
  entities starts there. An anchor tag with all five characters comes out with each
  of them as its entity, whatever the Unicode tables are.
\<close>

theorem sanitize_response_escapes:
  "sanitize_response U text =
     replace [39] (lit ''&#039;'')
       (replace (lit ''\"'') (lit ''&quot;'')
         (replace (lit ''>'') (lit ''&gt;'')
           (replace (lit ''<'') (lit ''&lt;'')
             (replace (lit ''&'') (lit ''&amp;'') (structural_cleanup U text)))))
   \<and> sanitize_response U text = concat (map escape_char (structural_cleanup U text))
   \<and> sanitize_response U (lit ''<a href=\"x\">Tom & Jerry's</a>'')
       = lit ''&lt;a href=&quot;x&quot;&gt;Tom &amp; Jerry&#039;s&lt;/a&gt;''
   \<and> 60 \<notin> set (sanitize_response U text)
   \<and> 62 \<notin> set (sanitize_response U text)
   \<and> 34 \<notin> set (sanitize_response U text)
   \<and> 39 \<notin> set (sanitize_response U text)
   \<and> (\<forall>i < length (sanitize_response U text).
         sanitize_response U text ! i = 38 \<longrightarrow>
         (\<exists>e \<in> set entities. prefix e (drop i (sanitize_response U text))))"
proof -
  have c: "sanitize_response U text = concat (map escape_char (structural_cleanup U text))"
    by (simp add: sanitize_response_cleanup escape_html_chars)
  have first: "sanitize_response U text =
     replace [39] (lit ''&#039;'')
       (replace (lit ''\"'') (lit ''&quot;'')
         (replace (lit ''>'') (lit ''&gt;'')
           (replace (lit ''<'') (lit ''&lt;'')
             (replace (lit ''&'') (lit ''&amp;'') (structural_cleanup U text)))))"
    unfolding sanitize_response_cleanup escape_html_def ..
  have ex: "sanitize_response U (lit ''<a href=\"x\">Tom & Jerry's</a>'')
       = lit ''&lt;a href=&quot;x&quot;&gt;Tom &amp; Jerry&#039;s&lt;/a&gt;''"
    by (simp only: sanitize_response_cleanup cleanup_leaves_markup escape_html_markup)
  have chars: "60 \<notin> set (sanitize_response U text)" "62 \<notin> set (sanitize_response U text)"
    "34 \<notin> set (sanitize_response U text)" "39 \<notin> set (sanitize_response U text)"
    using escaped_chars[of _ "structural_cleanup U text"] unfolding c by blast+
  have amp: "\<forall>i < length (sanitize_response U text).
         sanitize_response U text ! i = 38 \<longrightarrow>
         (\<exists>e \<in> set entities. prefix e (drop i (sanitize_response U text)))"
    unfolding c by (rule amp_escaped)
  show ?thesis using first c ex chars amp by blast
qed

text \<open>An input with four of the five characters; the output starts with an entity.\<close>

theorem sanitize_response_escapes_witness:
  "sanitize_response ascii_unicode (lit ''<b>Tom & Jerry's</b>'')
     = lit ''&lt;b&gt;Tom &amp; Jerry&#039;s&lt;/b&gt;''
   \<and> 0 < length (sanitize_response ascii_unicode (lit ''<b>Tom & Jerry's</b>''))
   \<and> sanitize_response ascii_unicode (lit ''<b>Tom & Jerry's</b>'') ! 0 = 38
   \<and> (\<exists>e \<in> set entities.
          prefix e (drop 0 (sanitize_response ascii_unicode (lit ''<b>Tom & Jerry's</b>''))))"
proof -
  have v: "sanitize_response ascii_unicode (lit ''<b>Tom & Jerry's</b>'')
     = lit ''&lt;b&gt;Tom &amp; Jerry&#039;s&lt;/b&gt;''"
    by code_simp
  have h: "0 < length (sanitize_response ascii_unicode (lit ''<b>Tom & Jerry's</b>''))
    \<and> sanitize_response ascii_unicode (lit ''<b>Tom & Jerry's</b>'') ! 0 = 38"
    unfolding v by (simp add: lit_def)
  from sanitize_response_escapes[of ascii_unicode "lit ''<b>Tom & Jerry's</b>''"] h
  have "\<exists>e \<in> set entities.
          prefix e (drop 0 (sanitize_response ascii_unicode (lit ''<b>Tom & Jerry's</b>'')))"
    by blast
  then show ?thesis using v h by blast
qed

section \<open>Facts about the formatter\<close>

lemma replace1_keeps:
  "set old \<subseteq> set new \<Longrightarrow> set s \<subseteq> set (replace1 old new s)"
proof (induction s)
  case Nil
  then show ?case by simp
next
  case (Cons c cs)
  show ?case
  proof (cases "prefix old (c # cs)")
    case True
    then have "c # cs = old @ drop (length old) (c # cs)"
      by (metis append_eq_conv_conj prefix_def)
    then have "set (c # cs) = set old \<union> set (drop (length old) (c # cs))"
      by (metis set_append)
    then show ?thesis using True Cons.prems by auto
  next
    case False
    then show ?thesis using Cons by auto
  qed
qed

lemma format_symbols_keeps:
  "set t \<subseteq> set (format_symbols syms t)"
proof (induction syms arbitrary: t)
  case Nil
  then show ?case by simp
next
  case (Cons s syms)
  have "set t \<subseteq> set (replace1 s (formatted_symbol s) t)"
    by (rule replace1_keeps) (auto simp: formatted_symbol_def)
  then show ?case using Cons.IH by (auto simp del: replace1.simps)
qed

lemma format_steps_text:
  "format_mathematical_notation s =
     format_symbols (finditer_symbols (steps_text s)) (steps_text s)"
  by (simp add: format_mathematical_notation_def steps_text_def Let_def)

lemma canned_steps_lt: "60 \<in> set (steps_text canned_response)"
  by code_simp

lemma format_symbols_foldl:
  "format_symbols syms t =
     foldl (\<lambda>u s. replace1 s (formatted_symbol s) u) t (filter (\<lambda>s. s \<notin> set stopwords) syms)"
  by (induction syms arbitrary: t) (simp_all del: replace1.simps)

lemma finditer_symbols_shape:
  "s \<in> set (finditer_symbols t) \<Longrightarrow>
     (\<exists>a. s = [a] \<and> is_letter a) \<or> (\<exists>a c. s = [a, 95, c] \<and> is_letter a \<and> is_alnum c)"
  by (induction t rule: finditer_symbols.induct) (auto split: if_splits)

lemma replace1_first:
  "sublist old u \<Longrightarrow>
     \<exists>pre post. u = pre @ old @ post
       \<and> (\<forall>pre' post'. u = pre' @ old @ post' \<longrightarrow> length pre \<le> length pre')
       \<and> replace1 old new u = pre @ new @ post"
proof (induction u)
  case Nil
  then have "old = []" by simp
  then show ?case by simp
next
  case (Cons c cs)
  show ?case
  proof (cases "prefix old (c # cs)")
    case True
    then have "c # cs = [] @ old @ drop (length old) (c # cs)"
      by (metis append_Nil append_eq_conv_conj prefix_def)
    moreover have "replace1 old new (c # cs) = [] @ new @ drop (length old) (c # cs)"
      using True by simp
    ultimately show ?thesis by (metis le0 list.size(3))
  next
    case False
    then have "sublist old cs" using Cons.prems by (simp add: sublist_Cons_right)
    from Cons.IH[OF this] obtain pre post where p: "cs = pre @ old @ post"
      "\<forall>pre' post'. cs = pre' @ old @ post' \<longrightarrow> length pre \<le> length pre'"
      "replace1 old new cs = pre @ new @ post" by blast
    have min: "length (c # pre) \<le> length pre'" if "c # cs = pre' @ old @ post'" for pre' post'
    proof (cases pre')
      case Nil
      then have "prefix old (c # cs)" using that by simp
      then show ?thesis using False by simp
    next
      case (Cons d pre'')
      then have "cs = pre'' @ old @ post'" using that by simp
      then show ?thesis using p(2) Cons by simp
    qed
    have "c # cs = (c # pre) @ old @ post" using p(1) by simp
    moreover have "replace1 old new (c # cs) = (c # pre) @ new @ post"
      using False p(3) by simp
    ultimately show ?thesis using min by blast
  qed
qed

lemma replace1_absent: "\<not> sublist old u \<Longrightarrow> replace1 old new u = u"
  by (induction u) (auto simp: sublist_Cons_right)

lemma finditer_symbols_next:
  "finditer_symbols r = s # ts \<Longrightarrow> \<exists>junk r'. r = junk @ s @ r' \<and> finditer_symbols r' = ts"
proof (induction r rule: finditer_symbols.induct[case_names three one two none])
  case (three a b c cs)
  show ?case
  proof (cases "is_letter a \<and> b = 95 \<and> is_alnum c")
    case True
    then have "s = [a, b, c]" "finditer_symbols cs = ts" using three.prems by auto
    then have "a # b # c # cs = [] @ s @ cs \<and> finditer_symbols cs = ts" by simp
    then show ?thesis by blast
  next
    case False
    show ?thesis
    proof (cases "is_letter a")
      case True
      then have "s = [a]" "finditer_symbols (b # c # cs) = ts" using False three.prems by auto
      then have "a # b # c # cs = [] @ s @ (b # c # cs) \<and> finditer_symbols (b # c # cs) = ts"
        by simp
      then show ?thesis by blast
    next
      case nl: False
      then have "finditer_symbols (b # c # cs) = s # ts" using False three.prems by auto
      from three.IH(3)[OF False nl this] obtain junk r' where
        "b # c # cs = junk @ s @ r'" "finditer_symbols r' = ts" by blast
      then have "a # b # c # cs = (a # junk) @ s @ r' \<and> finditer_symbols r' = ts" by simp
      then show ?thesis by blast
    qed
  qed
next
  case (one a)
  then have "is_letter a" "s = [a]" "ts = []" by (auto split: if_splits)
  then have "[a] = [] @ s @ [] \<and> finditer_symbols [] = ts" by simp
  then show ?case by blast
next
  case (two a b)
  show ?case
  proof (cases "is_letter a")
    case True
    then have "s = [a]" "finditer_symbols [b] = ts" using two.prems by auto
    then have "[a, b] = [] @ s @ [b] \<and> finditer_symbols [b] = ts" by simp
    then show ?thesis by blast
  next
    case False
    then have "finditer_symbols [b] = s # ts" using two.prems by auto
    from two.IH(2)[OF False this] obtain junk r' where
      "[b] = junk @ s @ r'" "finditer_symbols r' = ts" by blast
    then have "[a, b] = (a # junk) @ s @ r' \<and> finditer_symbols r' = ts" by simp
    then show ?thesis by blast
  qed
next
  case none
  then show ?case by simp
qed


lemma formatted_symbol_length: "length (formatted_symbol s) = length s + 28"
  by (simp add: formatted_symbol_def lit_def)

lemma format_symbols_count:
  "finditer_symbols r = ts \<Longrightarrow>
     length (format_symbols ts (u1 @ r))
       = length (u1 @ r) + 28 * length (filter (\<lambda>s. s \<notin> set stopwords) ts)"
proof (induction ts arbitrary: r u1)
  case Nil
  then show ?case by simp
next
  case (Cons s ts)
  from finditer_symbols_next[OF Cons.prems] obtain junk r' where
    r: "r = junk @ s @ r'" and ts: "finditer_symbols r' = ts" by blast
  show ?case
  proof (cases "s \<in> set stopwords")
    case True
    have "u1 @ r = (u1 @ junk @ s) @ r'" using r by simp
    then show ?thesis
      using Cons.IH[OF ts, of "u1 @ junk @ s"] True by (simp del: replace1.simps)
  next
    case False
    define U where "U = u1 @ r"
    define A where "A = u1 @ junk"
    have u: "U = A @ s @ r'" using r by (simp add: U_def A_def)
    then have "sublist s U" by (metis sublist_appendI)
    from replace1_first[OF this, of "formatted_symbol s"] obtain pre post where
      p: "U = pre @ s @ post"
        "\<forall>pre' post'. U = pre' @ s @ post' \<longrightarrow> length pre \<le> length pre'"
        "replace1 s (formatted_symbol s) U = pre @ formatted_symbol s @ post"
      by blast
    have le: "length pre \<le> length A" using p(2) u by blast
    have "post = drop (length pre + length s) U"
      using p(1) by (metis append.assoc append_eq_conv_conj length_append)
    moreover have "r' = drop (length A + length s) U"
      using u by (metis append.assoc append_eq_conv_conj length_append)
    moreover have "length A + length s = (length A - length pre) + (length pre + length s)"
      using le by simp
    ultimately have "r' = drop (length A - length pre) post"
      by (metis drop_drop)
    then obtain x where x: "post = x @ r'"
      by (metis append_take_drop_id)
    have rep: "replace1 s (formatted_symbol s) U = (pre @ formatted_symbol s @ x) @ r'"
      using p(3) x by simp
    have len: "length ((pre @ formatted_symbol s @ x) @ r') = length U + 28"
    proof -
      have "length U = length pre + length s + length x + length r'"
        using p(1) x by (metis append.assoc length_append)
      then show ?thesis by (simp add: formatted_symbol_length)
    qed
    have "length (format_symbols (s # ts) U)
        = length (format_symbols ts ((pre @ formatted_symbol s @ x) @ r'))"
      using False rep by (simp del: replace1.simps)
    also have "\<dots> = length ((pre @ formatted_symbol s @ x) @ r')
        + 28 * length (filter (\<lambda>s. s \<notin> set stopwords) ts)"
      by (rule Cons.IH[OF ts])
    finally show ?thesis using len False by (simp add: U_def)
  qed
qed

section \<open>The response generator\<close>

lemma generate_emoji_in: "generate_emoji r \<in> set emojis"
  unfolding generate_emoji_def by (rule nth_mem) (simp add: emojis_def)

lemma hello_no_trigger: "\<not> any_in ascii_unicode trigger_words (lit ''hello'')"
  by code_simp

lemma viscosity_trigger: "any_in ascii_unicode trigger_words (lit ''What is Viscosity?'')"
  by code_simp

text \<open>
  C5. When the query is a string with no trigger word in its lower-cased form and the
  model client raises, \<open>generate_response_with_context\<close> returns (it does not raise)
  the fixed apology followed by \<open>generate_emoji\<close>, which is one of the fifteen entries
  of \<open>emojis\<close>; the text is not empty.
\<close>

theorem client_failure_apology:
  "\<not> (\<exists>w \<in> set trigger_words. sublist w (lower U q))
   \<and> client (context_prompt q (length (history ctx))) = Inl e
   \<longrightarrow> generate_response_with_context U client r ctx (JString q)
         = Inr (lit ''I'm sorry, I encountered an error processing your query. '' @ generate_emoji r)
       \<and> generate_emoji r \<in> set emojis
       \<and> length emojis = 15
       \<and> lit ''I'm sorry, I encountered an error processing your query. '' @ generate_emoji r \<noteq> []"
proof (intro impI, elim conjE)
  assume nt: "\<not> (\<exists>w \<in> set trigger_words. sublist w (lower U q))"
    and cl: "client (context_prompt q (length (history ctx))) = Inl e"
  have "\<not> any_in U trigger_words q"
    using nt by (simp add: any_in_def str_in_def list_ex_iff)
  then have "generate_response_with_context U client r ctx (JString q)
         = Inr (lit ''I'm sorry, I encountered an error processing your query. '' @ generate_emoji r)"
    using cl by (simp add: generate_response_with_context_def apology_def)
  moreover have "length emojis = 15" by (simp add: emojis_def)
  moreover have "lit ''I'm sorry, I encountered an error processing your query. '' @ generate_emoji r \<noteq> []"
    by (simp add: lit_def)
  ultimately show "generate_response_with_context U client r ctx (JString q)
         = Inr (lit ''I'm sorry, I encountered an error processing your query. '' @ generate_emoji r)
       \<and> generate_emoji r \<in> set emojis
       \<and> length emojis = 15
       \<and> lit ''I'm sorry, I encountered an error processing your query. '' @ generate_emoji r \<noteq> []"
    using generate_emoji_in by simp
qed

text \<open>A query without trigger words, a client that raises, and the draw 3.\<close>

theorem client_failure_apology_witness:
  "\<not> (\<exists>w \<in> set trigger_words. sublist w (lower ascii_unicode (lit ''hello'')))
   \<and> failing_client (context_prompt (lit ''hello'') (length (history (init 5)))) = Inl ClientError
   \<and> generate_response_with_context ascii_unicode failing_client 3 (init 5) (JString (lit ''hello''))
       = Inr (lit ''I'm sorry, I encountered an error processing your query. '' @ [128640])"
proof -
  have nt: "\<not> (\<exists>w \<in> set trigger_words. sublist w (lower ascii_unicode (lit ''hello'')))"
    using hello_no_trigger by (simp add: any_in_def str_in_def list_ex_iff)
  have cl: "failing_client (context_prompt (lit ''hello'') (length (history (init 5)))) = Inl ClientError"
    by (simp add: failing_client_def)
  have e: "generate_emoji 3 = [128640]"
    by (simp add: generate_emoji_def emojis_def)
  show ?thesis
    using client_failure_apology[of ascii_unicode "lit ''hello''" failing_client "init 5" ClientError 3]
      nt cl e by simp
qed

lemma canned_has_lt: "60 \<in> set (format_mathematical_notation canned_response)"
  using canned_steps_lt
    format_symbols_keeps[of "steps_text canned_response"
      "finditer_symbols (steps_text canned_response)"]
  unfolding format_steps_text by blast

lemma canned_not_sanitized:
  "format_mathematical_notation canned_response \<noteq> sanitize_response U t"
  using canned_has_lt sanitize_response_no_html[of 60 U t] by auto

lemma any_in_iff:
  "any_in U ws q \<longleftrightarrow> (\<exists>w \<in> set ws. sublist w (lower U q))"
  by (simp add: any_in_def str_in_def list_ex_iff)

text \<open>
  C4. A query whose lower-cased form contains one of the five trigger words gets
  \<open>format_mathematical_notation\<close> of the fixed passage, whatever the query, the
  client, the context and the random draw are. The passage goes through the formatter
  only: the result keeps a literal \<open><\<close> (60), so it is not an output of
  \<open>sanitize_response\<close>.
\<close>

theorem canned_response_fixed:
  "((\<exists>w \<in> set trigger_words. sublist w (lower U q)) \<longrightarrow>
      generate_response_with_context U client r ctx (JString q)
        = Inr (format_mathematical_notation canned_response))
   \<and> trigger_words =
       [lit ''dimension'', lit ''dimensional analysis'', lit ''viscosity'', lit ''prove'',
        lit ''derivation'']
   \<and> 60 \<in> set (format_mathematical_notation canned_response)
   \<and> (\<forall>U' t. format_mathematical_notation canned_response \<noteq> sanitize_response U' t)"
  using canned_has_lt canned_not_sanitized
  by (simp add: generate_response_with_context_def any_in_iff trigger_words_def)

text \<open>A query with \<open>viscosity\<close> in mixed case.\<close>

theorem canned_response_fixed_witness:
  "(\<exists>w \<in> set trigger_words. sublist w (lower ascii_unicode (lit ''What is Viscosity?'')))
   \<and> generate_response_with_context ascii_unicode failing_client 0 (init 5)
        (JString (lit ''What is Viscosity?''))
       = Inr (format_mathematical_notation canned_response)"
  using canned_response_fixed[of ascii_unicode "lit ''What is Viscosity?''" failing_client 0 "init 5"]
    viscosity_trigger
  by (simp add: any_in_iff)

lemma apology_has_apostrophe: "39 \<in> set (apology @ e)"
  by (simp add: apology_def lit_def)

text \<open>
  C3 says that every text \<open>generate_response_with_context\<close> returns has gone through
  \<open>sanitize_response\<close> last and so has no unescaped HTML character. Two of the three
  return paths do not sanitize: with a client that raises, the query \<open>hello\<close> gets the
  apology with its apostrophe (39), and a query with a trigger word gets the formatted
  passage with a literal \<open><\<close> (60).
\<close>

theorem unsanitized_paths_counterexample:
  "generate_response_with_context ascii_unicode failing_client 0 (init 5) (JString (lit ''hello''))
     = Inr (lit ''I'm sorry, I encountered an error processing your query. '' @ [128522])
   \<and> 39 \<in> set (lit ''I'm sorry, I encountered an error processing your query. '' @ [128522])
   \<and> generate_response_with_context ascii_unicode failing_client 0 (init 5)
        (JString (lit ''What is Viscosity?''))
     = Inr (format_mathematical_notation canned_response)
   \<and> 60 \<in> set (format_mathematical_notation canned_response)"
proof -
  have e: "generate_emoji 0 = [128522]"
    by (simp add: generate_emoji_def emojis_def)
  have a: "generate_response_with_context ascii_unicode failing_client 0 (init 5) (JString (lit ''hello''))
     = Inr (lit ''I'm sorry, I encountered an error processing your query. '' @ [128522])"
    using hello_no_trigger e
    by (simp add: generate_response_with_context_def failing_client_def apology_def)
  have b: "39 \<in> set (lit ''I'm sorry, I encountered an error processing your query. '' @ [128522])"
    using apology_has_apostrophe[of "[128522]"] by (simp add: apology_def)
  have c: "generate_response_with_context ascii_unicode failing_client 0 (init 5)
        (JString (lit ''What is Viscosity?''))
     = Inr (format_mathematical_notation canned_response)"
    using viscosity_trigger by (simp add: generate_response_with_context_def)
  show ?thesis using a b c canned_has_lt by blast
qed

text \<open>
  C3, as the code has it. Only where no trigger word matches and the client returns a
  text is \<open>sanitize_response\<close> the last step, applied to the formatter's output; the
  result then has no \<open><\<close>, \<open>>\<close>, \<open>"\<close> or \<open>'\<close>. A trigger word returns the formatted
  passage, and a client that raises returns the apology with its emoji, neither of
  them sanitized.
\<close>

theorem sanitized_on_model_text_only:
  "(\<not> (\<exists>w \<in> set trigger_words. sublist w (lower U q))
      \<and> client (context_prompt q (length (history ctx))) = Inr t \<longrightarrow>
        generate_response_with_context U client r ctx (JString q)
          = Inr (sanitize_response U (format_mathematical_notation t))
        \<and> 60 \<notin> set (sanitize_response U (format_mathematical_notation t))
        \<and> 62 \<notin> set (sanitize_response U (format_mathematical_notation t))
        \<and> 34 \<notin> set (sanitize_response U (format_mathematical_notation t))
        \<and> 39 \<notin> set (sanitize_response U (format_mathematical_notation t)))
   \<and> ((\<exists>w \<in> set trigger_words. sublist w (lower U q)) \<longrightarrow>
        generate_response_with_context U client r ctx (JString q)
          = Inr (format_mathematical_notation canned_response))
   \<and> (\<not> (\<exists>w \<in> set trigger_words. sublist w (lower U q))
      \<and> client (context_prompt q (length (history ctx))) = Inl e \<longrightarrow>
        generate_response_with_context U client r ctx (JString q)
          = Inr (apology @ generate_emoji r))"
proof (intro conjI impI)
  assume a: "\<not> (\<exists>w \<in> set trigger_words. sublist w (lower U q))
      \<and> client (context_prompt q (length (history ctx))) = Inr t"
  then show "generate_response_with_context U client r ctx (JString q)
          = Inr (sanitize_response U (format_mathematical_notation t))"
    by (simp add: generate_response_with_context_def any_in_iff)
  show "60 \<notin> set (sanitize_response U (format_mathematical_notation t))"
    "62 \<notin> set (sanitize_response U (format_mathematical_notation t))"
    "34 \<notin> set (sanitize_response U (format_mathematical_notation t))"
    "39 \<notin> set (sanitize_response U (format_mathematical_notation t))"
    using sanitize_response_no_html[of _ U "format_mathematical_notation t"] by blast+
next
  assume "\<exists>w \<in> set trigger_words. sublist w (lower U q)"
  then show "generate_response_with_context U client r ctx (JString q)
          = Inr (format_mathematical_notation canned_response)"
    by (simp add: generate_response_with_context_def any_in_iff)
next
  assume "\<not> (\<exists>w \<in> set trigger_words. sublist w (lower U q))
      \<and> client (context_prompt q (length (history ctx))) = Inl e"
  then show "generate_response_with_context U client r ctx (JString q)
          = Inr (apology @ generate_emoji r)"
    by (simp add: generate_response_with_context_def any_in_iff)
qed

text \<open>A client that answers with markup, on a query without trigger words.\<close>

theorem sanitized_on_model_text_only_witness:
  "\<not> (\<exists>w \<in> set trigger_words. sublist w (lower ascii_unicode (lit ''hello'')))
   \<and> answering_client (lit ''<b>Hi</b>'') (context_prompt (lit ''hello'') (length (history (init 5))))
       = Inr (lit ''<b>Hi</b>'')
   \<and> generate_response_with_context ascii_unicode (answering_client (lit ''<b>Hi</b>'')) 0 (init 5)
        (JString (lit ''hello''))
       = Inr (sanitize_response ascii_unicode (format_mathematical_notation (lit ''<b>Hi</b>'')))
   \<and> 60 \<notin> set (sanitize_response ascii_unicode (format_mathematical_notation (lit ''<b>Hi</b>'')))"
proof -
  have nt: "\<not> (\<exists>w \<in> set trigger_words. sublist w (lower ascii_unicode (lit ''hello'')))"
    using hello_no_trigger by (simp add: any_in_iff)
  have cl: "answering_client (lit ''<b>Hi</b>'') (context_prompt (lit ''hello'') (length (history (init 5))))
       = Inr (lit ''<b>Hi</b>'')"
    by (simp add: answering_client_def)
  show ?thesis
    using sanitized_on_model_text_only[of ascii_unicode "lit ''hello''"
        "answering_client (lit ''<b>Hi</b>'')" "init 5" "lit ''<b>Hi</b>''" 0] nt cl
    by blast
qed

section \<open>The endpoint\<close>

text \<open>
  C10. Whenever \<open>query\<close> replies with success, the reply carries the text that
  \<open>generate_response_with_context\<close> returned for the string query of the request, and
  the history of the context is the old one (without its oldest entry, if it was full)
  with exactly one new entry at the end, made of that query and that text. This
  includes the requests on which the model client raises: the text is then the apology
  with its emoji, the reply is still a success, and the apology is what the history
  stores.
\<close>

theorem query_success_appends:
  "(query U client r ctx request_json = (rep, ctx') \<and> success rep \<longrightarrow>
      (\<exists>q t. response rep = Some t \<and> status rep = 200
         \<and> generate_response_with_context U client r ctx (JString q) = Inr t
         \<and> history ctx' =
             (if int (length (history ctx)) \<ge> max_history ctx then tl (history ctx)
              else history ctx)
             @ [\<lparr>user_query = JString q, ai_response = JString t\<rparr>]
         \<and> (\<not> (\<exists>w \<in> set trigger_words. sublist w (lower U q))
              \<and> (\<exists>e. client (context_prompt q (length (history ctx))) = Inl e)
            \<longrightarrow> t = apology @ generate_emoji r)))
   \<and> ((history ctx \<noteq> [] \<or> int (length (history ctx)) < max_history ctx)
        \<and> map_of items (lit ''query'') = Some (JString q')
        \<and> \<not> (\<exists>w \<in> set trigger_words. sublist w (lower U q'))
        \<and> client (context_prompt q' (length (history ctx))) = Inl e' \<longrightarrow>
      query U client r ctx (Inr (JObject items))
        = (reply_ok (apology @ generate_emoji r),
           ctx\<lparr>history :=
             (if int (length (history ctx)) \<ge> max_history ctx then tl (history ctx)
              else history ctx)
             @ [\<lparr>user_query = JString q', ai_response = JString (apology @ generate_emoji r)\<rparr>]\<rparr>))"
proof (intro conjI impI)
  assume a: "query U client r ctx request_json = (rep, ctx') \<and> success rep"
  then obtain data where d: "request_json = Inr data"
    by (cases request_json) (auto simp: query_def reply_error_def)
  from a d obtain qt where qt: "data_get data (lit ''query'') (JString []) = Inr qt"
    by (cases "data_get data (lit ''query'') (JString [])") (auto simp: query_def reply_error_def)
  from a d qt obtain rg where rg: "data_get data (lit ''regenerate'') (JBool False) = Inr rg"
    by (cases "data_get data (lit ''regenerate'') (JBool False)")
       (auto simp: query_def reply_error_def)
  from a d qt rg obtain t where t: "generate_response_with_context U client r ctx qt = Inr t"
    by (cases "generate_response_with_context U client r ctx qt")
       (auto simp: query_def reply_error_def)
  from t obtain q where q: "qt = JString q"
    by (cases qt) (auto simp: generate_response_with_context_def)
  from a d qt rg t obtain c where c: "add_interaction ctx qt (JString t) = Inr c"
    by (cases "add_interaction ctx qt (JString t)") (auto simp: query_def reply_error_def)
  from a d qt rg t c have res: "rep = reply_ok t" "ctx' = c"
    by (auto simp: query_def)
  have h: "history c =
             (if int (length (history ctx)) \<ge> max_history ctx then tl (history ctx)
              else history ctx)
             @ [\<lparr>user_query = JString q, ai_response = JString t\<rparr>]"
    using c q by (auto simp: add_interaction_def split: if_splits list.splits)
  have f: "t = apology @ generate_emoji r"
    if "\<not> (\<exists>w \<in> set trigger_words. sublist w (lower U q))
              \<and> (\<exists>e. client (context_prompt q (length (history ctx))) = Inl e)"
    using that t q by (auto simp: generate_response_with_context_def any_in_iff)
  show "\<exists>q t. response rep = Some t \<and> status rep = 200
         \<and> generate_response_with_context U client r ctx (JString q) = Inr t
         \<and> history ctx' =
             (if int (length (history ctx)) \<ge> max_history ctx then tl (history ctx)
              else history ctx)
             @ [\<lparr>user_query = JString q, ai_response = JString t\<rparr>]
         \<and> (\<not> (\<exists>w \<in> set trigger_words. sublist w (lower U q))
              \<and> (\<exists>e. client (context_prompt q (length (history ctx))) = Inl e)
            \<longrightarrow> t = apology @ generate_emoji r)"
    using res h f t q by (intro exI[of _ q] exI[of _ t]) (simp add: reply_ok_def)
next
  assume b: "(history ctx \<noteq> [] \<or> int (length (history ctx)) < max_history ctx)
        \<and> map_of items (lit ''query'') = Some (JString q')
        \<and> \<not> (\<exists>w \<in> set trigger_words. sublist w (lower U q'))
        \<and> client (context_prompt q' (length (history ctx))) = Inl e'"
  then have g: "generate_response_with_context U client r ctx (JString q')
      = Inr (apology @ generate_emoji r)"
    by (simp add: generate_response_with_context_def any_in_iff)
  have ad: "add_interaction ctx (JString q') (JString (apology @ generate_emoji r))
      = Inr (ctx\<lparr>history :=
             (if int (length (history ctx)) \<ge> max_history ctx then tl (history ctx)
              else history ctx)
             @ [\<lparr>user_query = JString q', ai_response = JString (apology @ generate_emoji r)\<rparr>]\<rparr>)"
    using b by (cases "history ctx") (auto simp: add_interaction_def)
  show "query U client r ctx (Inr (JObject items))
        = (reply_ok (apology @ generate_emoji r),
           ctx\<lparr>history :=
             (if int (length (history ctx)) \<ge> max_history ctx then tl (history ctx)
              else history ctx)
             @ [\<lparr>user_query = JString q', ai_response = JString (apology @ generate_emoji r)\<rparr>]\<rparr>)"
    using b g ad by (simp add: query_def data_get_def split: option.splits)
qed

text \<open>A request for \<open>hello\<close> on the fresh context of the program, with a client that
  raises.\<close>

theorem query_success_appends_witness:
  "query ascii_unicode failing_client 0 (init 5)
       (Inr (JObject [(lit ''query'', JString (lit ''hello''))]))
     = (reply_ok (apology @ [128522]),
        (init 5)\<lparr>history :=
          [\<lparr>user_query = JString (lit ''hello''), ai_response = JString (apology @ [128522])\<rparr>]\<rparr>)
   \<and> success (reply_ok (apology @ [128522]))"
proof -
  have nt: "\<not> (\<exists>w \<in> set trigger_words. sublist w (lower ascii_unicode (lit ''hello'')))"
    using hello_no_trigger by (simp add: any_in_iff)
  have cl: "failing_client (context_prompt (lit ''hello'') (length (history (init 5)))) = Inl ClientError"
    by (simp add: failing_client_def)
  have e: "generate_emoji 0 = [128522]"
    by (simp add: generate_emoji_def emojis_def)
  have h: "history (init 5) = []" "max_history (init 5) = 5"
    by (simp_all add: init_def)
  have m: "map_of [(lit ''query'', JString (lit ''hello''))] (lit ''query'') = Some (JString (lit ''hello''))"
    by simp
  show ?thesis
    using query_success_appends[of ascii_unicode failing_client 0 "init 5" _ _ _
        "[(lit ''query'', JString (lit ''hello''))]" "lit ''hello''" ClientError]
      nt cl m h e
    by (simp add: reply_ok_def)
qed


section \<open>The formatter is not idempotent; the final pass\<close>

lemma format_length_steps:
  "length (format_mathematical_notation s)
     = length (steps_text s)
       + 28 * length (filter (\<lambda>s. s \<notin> set stopwords) (finditer_symbols (steps_text s)))"
  using format_symbols_count[of "steps_text s" "finditer_symbols (steps_text s)" "[]"]
  by (simp add: format_steps_text)

lemma x_formatted_length: "length (format_mathematical_notation (lit ''x'')) = 678"
  by code_simp

lemma x_formatted_steps:
  "length (steps_text (format_mathematical_notation (lit ''x''))) = 711"
  by code_simp

text \<open>
  C9. \<open>format_mathematical_notation\<close> is not idempotent: formatting \<open>x\<close> gives a text
  of 678 characters, and formatting that text again gives a longer one, since the
  second run wraps it in a step container before its final pass, which never shortens
  a text. The function has no failure path: it is a total function from strings to
  strings, each of its loops being a recursion over the finite list of matches, and on
  the empty string it returns the empty string.
\<close>

theorem format_not_idempotent:
  "format_mathematical_notation (format_mathematical_notation (lit ''x''))
     \<noteq> format_mathematical_notation (lit ''x'')
   \<and> format_mathematical_notation [] = []"
proof
  have "length (format_mathematical_notation (format_mathematical_notation (lit ''x''))) \<ge> 711"
    using format_length_steps[of "format_mathematical_notation (lit ''x'')"] x_formatted_steps
    by simp
  then show "format_mathematical_notation (format_mathematical_notation (lit ''x''))
     \<noteq> format_mathematical_notation (lit ''x'')"
    using x_formatted_length by auto
  show "format_mathematical_notation [] = []"
    by code_simp
qed

lemma x_steps: "steps_text (lit ''x'') = lit ''<div class=\"solution-step\">x</div>''"
  by code_simp

lemma x_distinct_length:
  "length (highlight_distinct (lit ''<div class=\"solution-step\">x</div>'')) = 398"
  by code_simp

lemma x_formatted:
  "format_mathematical_notation (lit ''x'') =
       lit ''<<<<<<s<span class=\"symbol\">p</span>an class=\"symbol\">s</spa'' @
       lit ''n>pa<span class=\"symbol\">n</span> c<span class=\"symb<span cl'' @
       lit ''ass=\"symbol\">o</span>l\">l</span>ass=\"symb<span class=\"symbol'' @
       lit ''\">o</span>l\">s</span>pan class=\"symbol\">s</span>pan class=\"s'' @
       lit ''ymbol\">s</span>pan <span c<span class=\"symbol\">l</span>ass=\"'' @
       lit ''symbol\">c</span>lass=\"symbol\"><span class=\"symbol\">d</span><'' @
       lit ''/span><span class=\"symbol\"><span class=\"symbol\"><span class='' @
       lit ''\"symbol\">i</span></span></span><span class=\"symbol\"><span cl'' @
       lit ''ass=\"symbol\">v</span></span> class=\"sol<span class=\"symbol\">'' @
       lit ''u</span><span class=\"symbol\"><span class=\"symbol\">t</span></'' @
       lit ''span>ion-st<span class=\"symbol\">e</span>p\"><span class=\"symb'' @
       lit ''ol\">x</span></div>''"
  by code_simp

lemma x_matches:
  "length (filter (\<lambda>s. s \<notin> set stopwords) (finditer_symbols (lit ''<div class=\"solution-step\">x</div>''))) = 23
   \<and> length (first_occurrences
         (filter (\<lambda>s. s \<notin> set stopwords) (finditer_symbols (lit ''<div class=\"solution-step\">x</div>'')))) = 13"
  by code_simp

lemma x_openers:
  "count_sub (lit ''<span class=\"symbol\">'') (format_mathematical_notation (lit ''x'')) = 16"
  by code_simp

text \<open>
  C8 says that the final pass wraps exactly the matches of the scan outside the stop
  words, the first occurrence of each distinct one. The code does not do that. On the
  input \<open>x\<close> the final pass receives \<open><div class="solution-step">x</div>\<close>, where the
  scan finds 23 matches outside the stop words, of 13 distinct strings. The loop runs
  \<open>replace(..., 1)\<close> for each of the 23 matches, on the text as the earlier
  replacements left it, so it wraps letters of the markup it has inserted itself: the
  output starts with \<open><<<<<<s<span class="symbol">p</span>an\<close>, it has 678
  characters where one wrapper for each distinct match gives 398, and only 16 of the
  23 opening tags it inserted are still whole.
\<close>

theorem symbol_pass_mangles_markup:
  "steps_text (lit ''x'') = (lit ''<div class=\"solution-step\">x</div>'')
   \<and> length (filter (\<lambda>s. s \<notin> set stopwords) (finditer_symbols (lit ''<div class=\"solution-step\">x</div>''))) = 23
   \<and> length (first_occurrences
         (filter (\<lambda>s. s \<notin> set stopwords) (finditer_symbols (lit ''<div class=\"solution-step\">x</div>'')))) = 13
   \<and> format_mathematical_notation (lit ''x'') =
       lit ''<<<<<<s<span class=\"symbol\">p</span>an class=\"symbol\">s</spa'' @
       lit ''n>pa<span class=\"symbol\">n</span> c<span class=\"symb<span cl'' @
       lit ''ass=\"symbol\">o</span>l\">l</span>ass=\"symb<span class=\"symbol'' @
       lit ''\">o</span>l\">s</span>pan class=\"symbol\">s</span>pan class=\"s'' @
       lit ''ymbol\">s</span>pan <span c<span class=\"symbol\">l</span>ass=\"'' @
       lit ''symbol\">c</span>lass=\"symbol\"><span class=\"symbol\">d</span><'' @
       lit ''/span><span class=\"symbol\"><span class=\"symbol\"><span class='' @
       lit ''\"symbol\">i</span></span></span><span class=\"symbol\"><span cl'' @
       lit ''ass=\"symbol\">v</span></span> class=\"sol<span class=\"symbol\">'' @
       lit ''u</span><span class=\"symbol\"><span class=\"symbol\">t</span></'' @
       lit ''span>ion-st<span class=\"symbol\">e</span>p\"><span class=\"symb'' @
       lit ''ol\">x</span></div>''
   \<and> count_sub (lit ''<span class=\"symbol\">'') (format_mathematical_notation (lit ''x'')) = 16
   \<and> length (format_mathematical_notation (lit ''x'')) = 678
   \<and> length (highlight_distinct (lit ''<div class=\"solution-step\">x</div>'')) = 398
   \<and> format_mathematical_notation (lit ''x'') \<noteq> highlight_distinct (lit ''<div class=\"solution-step\">x</div>'')"
proof -
  have "format_mathematical_notation (lit ''x'') \<noteq> highlight_distinct (lit ''<div class=\"solution-step\">x</div>'')"
    using x_formatted_length x_distinct_length by auto
  then show ?thesis
    using x_steps x_matches x_formatted x_openers x_formatted_length x_distinct_length
    by blast
qed

end
